theory Spec2Isabelle
  imports Complex_Main
begin

section \<open>Cells and characters\<close>

text \<open>
  The script \<^verbatim>\<open>scripts/classify_entries.py\<close> reads cells of two pandas tables. A cell
  holds a Python \<^verbatim>\<open>str\<close> or something else (a number, or the missing value);
  \<^verbatim>\<open>normalize_text\<close> tells the two apart with \<^verbatim>\<open>isinstance(text, str)\<close>.

  A text is a list of code points. The development covers the code points 0 to 255
  (Latin-1), one \<^typ>\<open>char\<close> each: on this range \<^verbatim>\<open>str.lower\<close> maps one code point
  to one code point and stays inside the range. The three whitespace tests of the
  script (\<^verbatim>\<open>str.strip()\<close>, the class \<^verbatim>\<open>\s\<close> of a \<^verbatim>\<open>str\<close> pattern and
  \<^verbatim>\<open>str.split()\<close>) are the same predicate, \<^verbatim>\<open>str.isspace\<close> of one code point.
\<close>

datatype cell = Text string | Number int | Missing

definition isspace :: "char \<Rightarrow> bool" where
  "isspace c =
     (let n = (of_char c :: nat)
      in (9 \<le> n \<and> n \<le> 13) \<or> (28 \<le> n \<and> n \<le> 32) \<or> n = 133 \<or> n = 160)"

definition lower_char :: "char \<Rightarrow> char" where
  "lower_char c =
     (let n = (of_char c :: nat)
      in if (65 \<le> n \<and> n \<le> 90) \<or> (192 \<le> n \<and> n \<le> 222 \<and> n \<noteq> 215)
         then char_of (n + 32) else c)"

text \<open>\<^verbatim>\<open>s.lower()\<close>\<close>

definition str_lower :: "string \<Rightarrow> string" where
  "str_lower s = map lower_char s"

text \<open>\<^verbatim>\<open>s.strip()\<close>: whitespace removed at both ends.\<close>

definition str_strip :: "string \<Rightarrow> string" where
  "str_strip s = rev (dropWhile isspace (rev (dropWhile isspace s)))"

text \<open>\<^verbatim>\<open>s.rstrip()\<close>, the right half of \<^verbatim>\<open>strip\<close>.\<close>

definition str_rstrip :: "string \<Rightarrow> string" where
  "str_rstrip s = rev (dropWhile isspace (rev s))"

text \<open>
  \<^verbatim>\<open>re.sub(r'\s+', ' ', s)\<close>: scanning from the left, each maximal run of whitespace
  (the quantifier is greedy) is replaced by one space.
\<close>

function re_sub_ws :: "string \<Rightarrow> string" where
  "re_sub_ws [] = []"
| "re_sub_ws (c # cs) =
     (if isspace c then CHR '' '' # re_sub_ws (dropWhile isspace cs)
      else c # re_sub_ws cs)"
  by pat_completeness auto
termination
  by (relation "measure length") (auto simp: less_Suc_eq_le length_dropWhile_le)

text \<open>
  \<^verbatim>\<open>s.split()\<close> with no separator: the maximal runs of non-whitespace, in order; no
  empty token.
\<close>

function str_split :: "string \<Rightarrow> string list" where
  "str_split s =
     (case dropWhile isspace s of
        [] \<Rightarrow> []
      | c # cs \<Rightarrow> takeWhile (\<lambda>x. \<not> isspace x) (c # cs)
                 # str_split (dropWhile (\<lambda>x. \<not> isspace x) (c # cs)))"
  by pat_completeness auto
termination
proof (relation "measure length")
  show "wf (measure length)" by simp
next
  fix s :: string and c cs
  assume d: "dropWhile isspace s = c # cs"
  have "\<not> isspace c"
    using hd_dropWhile [of isspace s] d by simp
  then have "length (dropWhile (\<lambda>x. \<not> isspace x) (c # cs)) \<le> length cs"
    by (simp add: length_dropWhile_le)
  moreover have "length (c # cs) \<le> length s"
    using length_dropWhile_le [of isspace s] d by simp
  ultimately show "(dropWhile (\<lambda>x. \<not> isspace x) (c # cs), s) \<in> measure length"
    by simp
qed

declare str_split.simps [simp del]

section \<open>The text normalizer and the similarity\<close>

text \<open>
  \<^verbatim>\<open>
  def normalize_text(text: str) -> str:
      if not isinstance(text, str):
          return ""
      return re.sub(r'\s+', ' ', str(text).lower().strip())
  \<close>
\<close>

fun normalize_text :: "cell \<Rightarrow> string" where
  "normalize_text (Text s) = re_sub_ws (str_strip (str_lower s))"
| "normalize_text (Number n) = []"
| "normalize_text Missing = []"

text \<open>
  \<^verbatim>\<open>
  def calculate_similarity(text1: str, text2: str) -> float:
      set1 = set(normalize_text(text1).split())
      set2 = set(normalize_text(text2).split())
      if not set1 or not set2:
          return 0.0
      intersection = len(set1.intersection(set2))
      union = len(set1.union(set2))
      return intersection / union if union > 0 else 0.0
  \<close>
  The quotient of the two counts is kept as a rational number. Python rounds it to a
  double; rounding is monotone and, for counts below \<open>2 ^ 26\<close>, sends different
  quotients to different doubles, so the comparisons of the script are those of the
  rationals.
\<close>

definition calculate_similarity :: "cell \<Rightarrow> cell \<Rightarrow> rat" where
  "calculate_similarity text1 text2 =
     (let set1 = set (str_split (normalize_text text1));
          set2 = set (str_split (normalize_text text2))
      in if set1 = {} \<or> set2 = {} then 0
         else let intersection = card (set1 \<inter> set2);
                  union = card (set1 \<union> set2)
              in if union > 0 then of_nat intersection / of_nat union else 0)"

section \<open>The matcher\<close>

record classification_row =
  row_accountType :: string
  row_primary :: cell
  row_secondary :: cell
  row_tertiary :: cell

record best_match =
  bm_accountType :: string
  bm_primaryClassification :: cell
  bm_secondaryClassification :: cell
  bm_tertiaryClassification :: cell

text \<open>The score of one row: the body of the loop of \<^verbatim>\<open>find_best_match\<close> up to \<^verbatim>\<open>max\<close>.\<close>

definition row_similarity :: "cell \<Rightarrow> classification_row \<Rightarrow> rat" where
  "row_similarity entry row =
     (let primary_sim = calculate_similarity entry (row_primary row);
          secondary_sim = calculate_similarity entry (row_secondary row);
          tertiary_sim = calculate_similarity entry (row_tertiary row)
      in max primary_sim (max secondary_sim tertiary_sim))"

text \<open>
  One iteration of the loop, on the pair \<^verbatim>\<open>(best_match, max_similarity)\<close>; \<^verbatim>\<open>None\<close>
  is \<^const>\<open>None\<close>.
\<close>

definition match_step ::
  "cell \<Rightarrow> classification_row \<Rightarrow> best_match option \<times> rat \<Rightarrow> best_match option \<times> rat" where
  "match_step entry row st =
     (case st of (best, max_similarity) \<Rightarrow>
        let similarity = row_similarity entry row
        in if similarity > max_similarity
           then (Some \<lparr>bm_accountType = row_accountType row,
                       bm_primaryClassification = row_primary row,
                       bm_secondaryClassification = row_secondary row,
                       bm_tertiaryClassification = row_tertiary row\<rparr>, similarity)
           else (best, max_similarity))"

text \<open>
  \<^verbatim>\<open>
  def find_best_match(entry, classifications):
      entry = normalize_text(entry)
      max_similarity = 0
      best_match = None
      for _, row in classifications.iterrows():
          ...
      return best_match, max_similarity
  \<close>
\<close>

definition find_best_match ::
  "cell \<Rightarrow> classification_row list \<Rightarrow> best_match option \<times> rat" where
  "find_best_match entry classifications =
     (let entry' = Text (normalize_text entry)
      in fold (match_step entry') classifications (None, 0))"

section \<open>Classifying the entries\<close>

record entry =
  entry_name :: cell
  entry_accountType :: string

record classification_result =
  entryName :: cell
  accountType :: string
  primaryClassification :: cell
  secondaryClassification :: cell
  tertiaryClassification :: cell
  confidence :: rat
  masterSheet :: string

text \<open>
  Subscripting \<^verbatim>\<open>None\<close> raises \<^verbatim>\<open>TypeError\<close>; it is the one exception the loop of
  \<^verbatim>\<open>classify_entries\<close> can raise on tables whose account types are strings.
\<close>

datatype error = TypeError

text \<open>
  \<^verbatim>\<open>
  relevant_classifications = classifications_df[
      classifications_df['Account Type'].str.lower() == account_type.lower()]
  \<close>
  A boolean mask keeps the rows where it holds, in the order of the table.
\<close>

definition relevant_classifications ::
  "classification_row list \<Rightarrow> string \<Rightarrow> classification_row list" where
  "relevant_classifications classifications_df account_type =
     filter (\<lambda>r. str_lower (row_accountType r) = str_lower account_type) classifications_df"

text \<open>
  The body of the loop of \<^verbatim>\<open>classify_entries\<close> for one entry. The function called at
  \<^verbatim>\<open>find_best_match(entry_name, relevant_classifications)\<close> is a parameter, so that a
  statement can say which argument it receives and when the result does not depend on it.
\<close>

type_synonym matcher = "cell \<Rightarrow> classification_row list \<Rightarrow> best_match option \<times> rat"

definition classify_entry_with ::
  "matcher \<Rightarrow> classification_row list \<Rightarrow> entry \<Rightarrow> error + classification_result" where
  "classify_entry_with matcher classifications_df row =
     (let name = entry_name row;
          account_type = entry_accountType row;
          relevant = relevant_classifications classifications_df account_type
      in if relevant = []
         then Inr \<lparr>entryName = name, accountType = account_type,
                   primaryClassification = Text ''UNKNOWN'',
                   secondaryClassification = Text ''UNKNOWN'',
                   tertiaryClassification = Text ''UNKNOWN'',
                   confidence = 0,
                   masterSheet = account_type @ '' Master Sheet''\<rparr>
         else (case matcher name relevant of
                 (None, similarity) \<Rightarrow> Inl TypeError
               | (Some best, similarity) \<Rightarrow>
                   Inr \<lparr>entryName = name, accountType = account_type,
                        primaryClassification = bm_primaryClassification best,
                        secondaryClassification = bm_secondaryClassification best,
                        tertiaryClassification = bm_tertiaryClassification best,
                        confidence = similarity,
                        masterSheet = account_type @ '' Master Sheet''\<rparr>))"

text \<open>
  The loop over the entries, with the list \<^verbatim>\<open>results\<close> it appends to. An exception
  leaves the loop and the function: no list is returned.
\<close>

fun classify_loop ::
  "matcher \<Rightarrow> classification_row list \<Rightarrow> entry list \<Rightarrow> classification_result list
     \<Rightarrow> error + classification_result list" where
  "classify_loop matcher classifications_df [] results = Inr results"
| "classify_loop matcher classifications_df (row # rest) results =
     (case classify_entry_with matcher classifications_df row of
        Inl e \<Rightarrow> Inl e
      | Inr classification \<Rightarrow>
          classify_loop matcher classifications_df rest (results @ [classification]))"

definition classify_entries ::
  "entry list \<Rightarrow> classification_row list \<Rightarrow> error + classification_result list" where
  "classify_entries entries_df classifications_df =
     classify_loop find_best_match classifications_df entries_df []"

section \<open>The normalizer as the specification words it\<close>

text \<open>
  The specification describes the result of the normalizer in the order lowercase,
  collapse, strip, and by its shape. \<open>normalize_spec\<close> is that description;
  \<open>single_spaced\<close> says that a whitespace character of a text is a space that no
  whitespace follows, \<open>stripped\<close> that a text neither starts nor ends with whitespace.
\<close>

definition normalize_spec :: "cell \<Rightarrow> string" where
  "normalize_spec t =
     (case t of
        Text s \<Rightarrow> if s = [] then [] else str_strip (re_sub_ws (str_lower s))
      | Number n \<Rightarrow> []
      | Missing \<Rightarrow> [])"

fun single_spaced :: "string \<Rightarrow> bool" where
  "single_spaced [] = True"
| "single_spaced [c] = (isspace c \<longrightarrow> c = CHR '' '')"
| "single_spaced (a # b # cs) =
     ((isspace a \<longrightarrow> a = CHR '' '' \<and> \<not> isspace b) \<and> single_spaced (b # cs))"

definition stripped :: "string \<Rightarrow> bool" where
  "stripped s = (s = [] \<or> (\<not> isspace (hd s) \<and> \<not> isspace (last s)))"

text \<open>The token set of a cell, as \<^verbatim>\<open>calculate_similarity\<close> builds it.\<close>

definition tokens :: "cell \<Rightarrow> string set" where
  "tokens t = set (str_split (normalize_text t))"

text \<open>
  The dictionary that \<^verbatim>\<open>find_best_match\<close> builds from a row, and the dictionary of the
  first branch of \<^verbatim>\<open>classify_entries\<close>, under names of their own for the statements.
\<close>

definition match_of :: "classification_row \<Rightarrow> best_match" where
  "match_of row = \<lparr>bm_accountType = row_accountType row,
                   bm_primaryClassification = row_primary row,
                   bm_secondaryClassification = row_secondary row,
                   bm_tertiaryClassification = row_tertiary row\<rparr>"

definition unknown_result :: "entry \<Rightarrow> classification_result" where
  "unknown_result e =
     \<lparr>entryName = entry_name e, accountType = entry_accountType e,
      primaryClassification = Text ''UNKNOWN'',
      secondaryClassification = Text ''UNKNOWN'',
      tertiaryClassification = Text ''UNKNOWN'',
      confidence = 0,
      masterSheet = entry_accountType e @ '' Master Sheet''\<rparr>"

text \<open>
  Equality of two account types under case-insensitive comparison, as the specification
  words it: the same length, and at each position the same character up to case.
\<close>

definition case_insensitive_equal :: "string \<Rightarrow> string \<Rightarrow> bool" where
  "case_insensitive_equal x y = list_all2 (\<lambda>c d. lower_char c = lower_char d) x y"

section \<open>Characters and whitespace\<close>

lemma of_char_lt: "(of_char c :: nat) < 256"
  by simp

lemma lower_char_idem: "lower_char (lower_char c) = lower_char c"
  using of_char_lt [of c] by (auto simp: lower_char_def Let_def)

lemma isspace_lower_char: "isspace (lower_char c) = isspace c"
  using of_char_lt [of c] by (auto simp: lower_char_def isspace_def Let_def)

lemma isspace_space: "isspace CHR '' ''"
  by (simp add: isspace_def)

lemma lower_char_space: "lower_char CHR '' '' = CHR '' ''"
  by (simp add: lower_char_def)

lemma str_lower_idem: "str_lower (str_lower s) = str_lower s"
  by (simp add: str_lower_def lower_char_idem)

lemma isspace_comp_lower: "isspace \<circ> lower_char = isspace"
  by (rule ext) (simp add: isspace_lower_char)

lemma dropWhile_lower: "dropWhile isspace (str_lower s) = str_lower (dropWhile isspace s)"
  by (simp add: str_lower_def dropWhile_map isspace_comp_lower)

lemma str_lower_strip: "str_lower (str_strip s) = str_strip (str_lower s)"
  by (simp add: str_strip_def str_lower_def dropWhile_map rev_map isspace_comp_lower)

lemma str_lower_re_sub: "str_lower (re_sub_ws s) = re_sub_ws (str_lower s)"
proof (induction s rule: re_sub_ws.induct)
  case 1
  show ?case by (simp add: str_lower_def)
next
  case (2 c cs)
  show ?case
  proof (cases "isspace c")
    case True
    with 2 show ?thesis
      using dropWhile_lower [of cs]
      by (simp add: str_lower_def isspace_lower_char lower_char_space)
  next
    case False
    with 2 show ?thesis
      by (simp add: str_lower_def isspace_lower_char)
  qed
qed

lemma dropWhile_re_sub_start:
  "s = [] \<or> \<not> isspace (hd s) \<Longrightarrow> dropWhile isspace (re_sub_ws s) = re_sub_ws s"
  by (cases s) auto

lemma start_dropWhile: "dropWhile isspace s = [] \<or> \<not> isspace (hd (dropWhile isspace s))"
  using hd_dropWhile [of isspace s] by blast

lemma dropWhile_re_sub: "dropWhile isspace (re_sub_ws s) = re_sub_ws (dropWhile isspace s)"
proof (cases s)
  case Nil
  then show ?thesis by simp
next
  case (Cons c cs)
  show ?thesis
  proof (cases "isspace c")
    case True
    then show ?thesis
      using Cons dropWhile_re_sub_start [OF start_dropWhile, of cs]
      by (simp add: isspace_space)
  next
    case False
    then show ?thesis using Cons by simp
  qed
qed

lemma re_sub_idem: "re_sub_ws (re_sub_ws s) = re_sub_ws s"
proof (induction s rule: re_sub_ws.induct)
  case 1
  show ?case by simp
next
  case (2 c cs)
  show ?case
  proof (cases "isspace c")
    case True
    with 2 show ?thesis
      using dropWhile_re_sub_start [OF start_dropWhile, of cs]
      by (simp add: isspace_space)
  next
    case False
    with 2 show ?thesis by simp
  qed
qed

lemma dropWhile_all_space: "\<forall>c\<in>set s. isspace c \<Longrightarrow> dropWhile isspace s = []"
  by simp

lemma re_sub_all_space:
  "\<forall>c\<in>set s. isspace c \<Longrightarrow> re_sub_ws s = (if s = [] then [] else '' '')"
  by (cases s) (simp_all add: dropWhile_all_space)

lemma dropWhile_before_word:
  "\<not> isspace c \<Longrightarrow> dropWhile isspace (xs @ c # ys) = dropWhile isspace xs @ c # ys"
  by (induction xs) auto

lemma re_sub_append_word:
  "\<not> isspace c \<Longrightarrow> re_sub_ws (xs @ c # ys) = re_sub_ws xs @ c # re_sub_ws ys"
proof (induction xs rule: re_sub_ws.induct)
  case 1
  then show ?case by simp
next
  case (2 d ds)
  then show ?case
    by (cases "isspace d") (simp_all add: dropWhile_before_word)
qed

lemma rstrip_all_space: "\<forall>c\<in>set s. isspace c \<Longrightarrow> str_rstrip s = []"
  by (simp add: str_rstrip_def)

lemma rstrip_append_word:
  "\<not> isspace c \<Longrightarrow> \<forall>x\<in>set t. isspace x \<Longrightarrow> str_rstrip (q @ c # t) = q @ [c]"
  by (simp add: str_rstrip_def dropWhile_append)

lemma rstrip_cases:
  "(\<forall>c\<in>set s. isspace c) \<or> (\<exists>q c t. s = q @ c # t \<and> \<not> isspace c \<and> (\<forall>x\<in>set t. isspace x))"
proof (cases "\<forall>c\<in>set s. isspace c")
  case True
  then show ?thesis by simp
next
  case False
  then have "\<exists>x\<in>set (rev s). \<not> isspace x" by simp
  then obtain ys x zs where "rev s = ys @ x # zs" "\<not> isspace x" "\<forall>y\<in>set ys. isspace y"
    using split_list_first_prop [of "rev s" "\<lambda>x. \<not> isspace x"] by auto
  then have "s = rev zs @ x # rev ys" "\<forall>y\<in>set (rev ys). isspace y"
    by (simp_all add: rev_swap)
  with \<open>\<not> isspace x\<close> show ?thesis by blast
qed

lemma re_sub_rstrip: "re_sub_ws (str_rstrip s) = str_rstrip (re_sub_ws s)"
proof -
  consider (blank) "\<forall>c\<in>set s. isspace c"
    | (word) q c t where "s = q @ c # t" "\<not> isspace c" "\<forall>x\<in>set t. isspace x"
    using rstrip_cases [of s] by blast
  then show ?thesis
  proof cases
    case blank
    then show ?thesis
      by (simp add: re_sub_all_space rstrip_all_space) (simp add: str_rstrip_def isspace_space)
  next
    case word
    have "str_rstrip (re_sub_ws q @ c # re_sub_ws t) = re_sub_ws q @ [c]"
      using word(2,3) by (intro rstrip_append_word) (auto simp: re_sub_all_space isspace_space)
    then show ?thesis
      using word by (simp add: re_sub_append_word rstrip_append_word)
  qed
qed

lemma str_strip_rstrip: "str_strip s = str_rstrip (dropWhile isspace s)"
  by (simp add: str_strip_def str_rstrip_def)

lemma re_sub_strip: "re_sub_ws (str_strip s) = str_strip (re_sub_ws s)"
  by (simp add: str_strip_rstrip re_sub_rstrip dropWhile_re_sub)

lemma single_spaced_Cons:
  "single_spaced (a # s) =
     ((isspace a \<longrightarrow> a = CHR '' '' \<and> (s = [] \<or> \<not> isspace (hd s))) \<and> single_spaced s)"
  by (cases s) auto

lemma hd_re_sub: "s \<noteq> [] \<Longrightarrow> isspace (hd (re_sub_ws s)) = isspace (hd s)"
  by (cases s) (auto simp: isspace_space)

lemma re_sub_Nil: "re_sub_ws s = [] \<longleftrightarrow> s = []"
  by (cases s) auto

lemma single_spaced_re_sub: "single_spaced (re_sub_ws s)"
proof (induction s rule: re_sub_ws.induct)
  case 1
  show ?case by simp
next
  case (2 c cs)
  show ?case
  proof (cases "isspace c")
    case True
    have "re_sub_ws (dropWhile isspace cs) = []
        \<or> \<not> isspace (hd (re_sub_ws (dropWhile isspace cs)))"
      using start_dropWhile [of cs] hd_re_sub [of "dropWhile isspace cs"]
      by (auto simp: re_sub_Nil)
    with True 2 show ?thesis
      by (simp add: single_spaced_Cons)
  next
    case False
    with 2 show ?thesis by (simp add: single_spaced_Cons)
  qed
qed

lemma stripped_strip: "stripped (str_strip s)"
proof (cases "str_strip s = []")
  case True
  then show ?thesis by (simp add: stripped_def)
next
  case False
  let ?d = "dropWhile isspace s"
  let ?r = "dropWhile isspace (rev ?d)"
  from False have r: "?r \<noteq> []" by (simp add: str_strip_def)
  then have l: "\<not> isspace (hd ?r)" by (rule hd_dropWhile)
  have d: "?d \<noteq> []" using r by (metis dropWhile.simps(1) rev.simps(1))
  then have hdd: "\<not> isspace (hd ?d)" by (rule hd_dropWhile)
  have "last (rev ?d) = hd ?d" using d by (simp add: last_rev)
  moreover have "last ?r = last (rev ?d)"
    using r by (metis takeWhile_dropWhile_id last_appendR)
  ultimately have "hd (rev ?r) = hd ?d"
    using r by (simp add: hd_rev)
  moreover have "last (rev ?r) = hd ?r"
    using r by (simp add: last_rev)
  ultimately show ?thesis
    using l hdd False by (simp add: stripped_def str_strip_def)
qed

lemma split_Nil: "str_split s = [] \<longleftrightarrow> (\<forall>c\<in>set s. isspace c)"
  by (subst str_split.simps) (auto split: list.splits simp: dropWhile_eq_Nil_conv [symmetric] simp del: dropWhile_eq_Nil_conv)

lemma split_dropWhile: "str_split (dropWhile isspace s) = str_split s"
  by (subst str_split.simps, subst (2) str_split.simps) simp

lemma takeWhile_word_trailing:
  "\<forall>x\<in>set t. isspace x \<Longrightarrow>
     takeWhile (\<lambda>x. \<not> isspace x) (xs @ t) = takeWhile (\<lambda>x. \<not> isspace x) xs"
  by (cases t) (simp, induction xs, auto)

lemma dropWhile_word_trailing:
  "\<forall>x\<in>set t. isspace x \<Longrightarrow>
     dropWhile (\<lambda>x. \<not> isspace x) (xs @ t) = dropWhile (\<lambda>x. \<not> isspace x) xs @ t"
  by (cases t) (simp, induction xs, auto)

lemma dropWhile_Cons_append:
  "dropWhile P s = c # cs \<Longrightarrow> dropWhile P (s @ t) = c # cs @ t"
  by (induction s) (auto split: if_splits)

lemma split_trailing:
  "\<forall>x\<in>set t. isspace x \<Longrightarrow> str_split (s @ t) = str_split s"
proof (induction s rule: str_split.induct)
  case (1 s)
  note stop = 1(2)
  show ?case
  proof (cases "dropWhile isspace s")
    case Nil
    then have "dropWhile isspace (s @ t) = []"
      using 1(2) by simp
    with Nil show ?thesis
      by (subst str_split.simps, subst (2) str_split.simps) (simp only: list.case)
  next
    case (Cons c cs)
    then have nc: "\<not> isspace c" using hd_dropWhile [of isspace s] by simp
    have "dropWhile isspace (s @ t) = (c # cs) @ t"
      using Cons by (simp add: dropWhile_Cons_append)
    moreover have "str_split (dropWhile (\<lambda>x. \<not> isspace x) (c # cs) @ t)
        = str_split (dropWhile (\<lambda>x. \<not> isspace x) (c # cs))"
      using 1(1) [OF Cons] 1(2) by simp
    ultimately show ?thesis
      using Cons takeWhile_word_trailing [OF stop, of "c # cs"] dropWhile_word_trailing [OF stop, of "c # cs"]
      by (subst str_split.simps, subst (2) str_split.simps) (simp only: list.case append_Cons)
  qed
qed

lemma rstrip_decomp: "\<exists>t. s = str_rstrip s @ t \<and> (\<forall>x\<in>set t. isspace x)"
proof -
  have "rev (dropWhile isspace (rev s)) @ rev (takeWhile isspace (rev s))
      = rev (takeWhile isspace (rev s) @ dropWhile isspace (rev s))"
    by (simp only: rev_append)
  also have "\<dots> = s" by simp
  finally have "s = str_rstrip s @ rev (takeWhile isspace (rev s))"
    by (simp only: str_rstrip_def)
  moreover have "\<forall>x\<in>set (rev (takeWhile isspace (rev s))). isspace x"
    by (auto dest: set_takeWhileD)
  ultimately show ?thesis by blast
qed

lemma split_rstrip: "str_split (str_rstrip s) = str_split s"
proof -
  obtain t where "s = str_rstrip s @ t" "\<forall>x\<in>set t. isspace x"
    using rstrip_decomp by blast
  then show ?thesis
    using split_trailing [of t "str_rstrip s"] by simp
qed

lemma split_strip: "str_split (str_strip s) = str_split s"
  by (simp add: str_strip_rstrip split_rstrip split_dropWhile)

lemma takeWhile_word_re_sub:
  "takeWhile (\<lambda>x. \<not> isspace x) (re_sub_ws s) = takeWhile (\<lambda>x. \<not> isspace x) s"
  by (induction s) (auto simp: isspace_space)

lemma dropWhile_word_re_sub:
  "dropWhile (\<lambda>x. \<not> isspace x) (re_sub_ws s) = re_sub_ws (dropWhile (\<lambda>x. \<not> isspace x) s)"
  by (induction s) (auto simp: isspace_space)

lemma split_re_sub: "str_split (re_sub_ws s) = str_split s"
proof (induction s rule: str_split.induct)
  case (1 s)
  have start: "str_split (re_sub_ws s) = str_split (re_sub_ws (dropWhile isspace s))"
    using split_dropWhile [of "re_sub_ws s"] by (simp add: dropWhile_re_sub)
  show ?case
  proof (cases "dropWhile isspace s")
    case Nil
    then have "str_split s = []"
      by (subst str_split.simps) (simp only: list.case)
    moreover have "str_split (re_sub_ws s) = []"
      using start Nil by (simp add: split_Nil)
    ultimately show ?thesis by simp
  next
    case (Cons c cs)
    then have nc: "\<not> isspace c" using hd_dropWhile [of isspace s] by simp
    let ?w = "\<lambda>x. \<not> isspace x"
    have "str_split (re_sub_ws (c # cs))
        = takeWhile ?w (re_sub_ws (c # cs)) # str_split (dropWhile ?w (re_sub_ws (c # cs)))"
      using nc by (subst str_split.simps) simp
    also have "\<dots> = takeWhile ?w (c # cs) # str_split (re_sub_ws (dropWhile ?w (c # cs)))"
      by (simp only: takeWhile_word_re_sub dropWhile_word_re_sub)
    also have "\<dots> = takeWhile ?w (c # cs) # str_split (dropWhile ?w (c # cs))"
      using 1 [OF Cons] by simp
    also have "\<dots> = str_split s"
      using Cons by (subst (2) str_split.simps) (simp only: list.case)
    finally show ?thesis using start Cons by simp
  qed
qed

lemma not_isspace_comp_lower: "(\<lambda>x. \<not> isspace x) \<circ> lower_char = (\<lambda>x. \<not> isspace x)"
  by (rule ext) (simp add: isspace_lower_char)

lemma split_lower: "str_split (str_lower s) = map str_lower (str_split s)"
proof (induction s rule: str_split.induct)
  case (1 s)
  show ?case
  proof (cases "dropWhile isspace s")
    case Nil
    then have "str_split s = []"
      by (subst str_split.simps) (simp only: list.case)
    moreover have "str_split (str_lower s) = []"
      using Nil by (simp add: split_Nil str_lower_def isspace_lower_char)
    ultimately show ?thesis by simp
  next
    case (Cons c cs)
    let ?w = "\<lambda>x. \<not> isspace x"
    have d: "dropWhile isspace (str_lower s) = lower_char c # str_lower cs"
      using Cons by (simp add: dropWhile_lower) (simp add: str_lower_def)
    have "str_split (str_lower s)
        = takeWhile ?w (str_lower (c # cs)) # str_split (dropWhile ?w (str_lower (c # cs)))"
      using d by (subst str_split.simps) (simp only: list.case, simp add: str_lower_def)
    also have "\<dots> = str_lower (takeWhile ?w (c # cs)) # str_split (str_lower (dropWhile ?w (c # cs)))"
      by (simp only: str_lower_def takeWhile_map dropWhile_map not_isspace_comp_lower)
    also have "\<dots> = str_lower (takeWhile ?w (c # cs)) # map str_lower (str_split (dropWhile ?w (c # cs)))"
      using 1 [OF Cons] by simp
    also have "\<dots> = map str_lower (str_split s)"
      using Cons by (subst (2) str_split.simps) (simp only: list.case list.map)
    finally show ?thesis .
  qed
qed

lemma split_normalize: "str_split (normalize_text (Text s)) = map str_lower (str_split s)"
  by (simp add: split_re_sub split_strip split_lower)

lemma strip_stripped: "stripped s \<Longrightarrow> str_strip s = s"
proof (cases s)
  case Nil
  then show ?thesis by (simp add: str_strip_def)
next
  case (Cons c cs)
  assume "stripped s"
  with Cons have h: "\<not> isspace (hd s)" and l: "\<not> isspace (last s)" and n: "s \<noteq> []"
    by (simp_all add: stripped_def)
  from h n have "dropWhile isspace s = s" by (cases s) simp_all
  moreover from l n have "dropWhile isspace (rev s) = rev s"
    by (cases "rev s") (simp_all add: last_rev [symmetric] del: last_rev)
  ultimately show ?thesis by (simp add: str_strip_def)
qed

lemma str_strip_idem: "str_strip (str_strip s) = str_strip s"
  by (rule strip_stripped) (rule stripped_strip)

lemma normalize_idem: "normalize_text (Text (normalize_text t)) = normalize_text t"
proof (cases t)
  case (Text s)
  let ?n = "re_sub_ws (str_strip (str_lower s))"
  have "str_lower ?n = ?n"
    by (simp add: str_lower_re_sub str_lower_strip str_lower_idem)
  moreover have "str_strip ?n = ?n"
    by (simp add: re_sub_strip str_strip_idem)
  ultimately show ?thesis
    using Text by (simp add: re_sub_idem)
qed (simp_all add: str_strip_def str_lower_def)

section \<open>Similarity, matcher and loop\<close>

lemma similarity_tokens:
  "calculate_similarity a b =
     (if tokens a = {} \<or> tokens b = {} then 0
      else of_nat (card (tokens a \<inter> tokens b)) / of_nat (card (tokens a \<union> tokens b)))"
proof -
  have "tokens a \<noteq> {} \<Longrightarrow> card (tokens a \<union> tokens b) > 0"
    by (simp add: tokens_def card_gt_0_iff)
  then show ?thesis
    by (auto simp: calculate_similarity_def tokens_def Let_def)
qed

lemma similarity_commute: "calculate_similarity a b = calculate_similarity b a"
  by (simp add: similarity_tokens Int_commute Un_commute disj_commute)

lemma similarity_nonneg: "0 \<le> calculate_similarity a b"
  by (simp add: similarity_tokens)

lemma similarity_le_one: "calculate_similarity a b \<le> 1"
proof -
  have "card (tokens a \<inter> tokens b) \<le> card (tokens a \<union> tokens b)"
    by (rule card_mono) (auto simp: tokens_def)
  then have "(of_nat (card (tokens a \<inter> tokens b)) :: rat) \<le> of_nat (card (tokens a \<union> tokens b))"
    by simp
  then show ?thesis
    by (auto simp: similarity_tokens divide_le_eq_1)
qed

lemma similarity_zero_iff:
  "calculate_similarity a b = 0 \<longleftrightarrow> tokens a \<inter> tokens b = {}"
proof -
  have fin: "finite (tokens a \<inter> tokens b)" "finite (tokens a \<union> tokens b)"
    by (simp_all add: tokens_def)
  show ?thesis
    using fin by (auto simp: similarity_tokens)
qed

lemma similarity_self: "tokens a \<noteq> {} \<Longrightarrow> calculate_similarity a a = 1"
proof -
  assume n: "tokens a \<noteq> {}"
  have "finite (tokens a)" by (simp add: tokens_def)
  with n have "card (tokens a) > 0" by (simp add: card_gt_0_iff)
  with n show ?thesis by (simp add: similarity_tokens)
qed

lemma tokens_normalized: "tokens (Text (normalize_text t)) = tokens t"
  by (simp only: tokens_def normalize_idem)

lemma similarity_normalized:
  "calculate_similarity (Text (normalize_text e)) l = calculate_similarity e l"
  by (simp only: similarity_tokens tokens_normalized)

lemma row_similarity_normalized:
  "row_similarity (Text (normalize_text e)) r = row_similarity e r"
  by (simp only: row_similarity_def similarity_normalized)

lemma match_step_normalized: "match_step (Text (normalize_text e)) = match_step e"
  by (intro ext) (simp only: match_step_def row_similarity_normalized)

lemma find_best_match_raw:
  "find_best_match e rows = fold (match_step e) rows (None, 0)"
  by (simp add: find_best_match_def match_step_normalized)

lemma row_similarity_bounds: "0 \<le> row_similarity e r \<and> row_similarity e r \<le> 1"
  by (simp add: row_similarity_def Let_def similarity_nonneg similarity_le_one le_max_iff_disj)

lemma row_similarity_zero_iff:
  "row_similarity e r = 0 \<longleftrightarrow>
     tokens e \<inter> tokens (row_primary r) = {} \<and> tokens e \<inter> tokens (row_secondary r) = {}
       \<and> tokens e \<inter> tokens (row_tertiary r) = {}"
proof -
  have "max x (max y z) = 0 \<longleftrightarrow> x = 0 \<and> y = 0 \<and> z = 0"
    if "0 \<le> x" "0 \<le> y" "0 \<le> z" for x y z :: rat
    using that by (auto simp: max_def)
  then show ?thesis
    by (simp add: row_similarity_def Let_def similarity_nonneg similarity_zero_iff [symmetric])
qed

lemma match_step_eq:
  "match_step e r (b, m) =
     (if m < row_similarity e r then (Some (match_of r), row_similarity e r) else (b, m))"
  by (simp add: match_step_def match_of_def Let_def)

lemma fold_step_keep:
  "\<forall>r\<in>set rows. row_similarity e r \<le> m \<Longrightarrow> fold (match_step e) rows (b, m) = (b, m)"
  by (induction rows) (simp_all add: match_step_eq)


lemma fold_step_bounds:
  "0 \<le> m \<Longrightarrow> m \<le> 1 \<Longrightarrow>
     0 \<le> snd (fold (match_step e) rows (b, m)) \<and> snd (fold (match_step e) rows (b, m)) \<le> 1"
  by (induction rows arbitrary: b m) (simp_all add: match_step_eq row_similarity_bounds)


lemma find_best_match_bounds:
  "0 \<le> snd (find_best_match e rows) \<and> snd (find_best_match e rows) \<le> 1"
  using fold_step_bounds [of 0 e rows None] by (simp add: find_best_match_raw)

lemma classify_entry_confidence:
  "classify_entry_with find_best_match cls e = Inr c \<Longrightarrow> 0 \<le> confidence c \<and> confidence c \<le> 1"
  using find_best_match_bounds [of "entry_name e" "relevant_classifications cls (entry_accountType e)"]
  by (auto simp: classify_entry_with_def Let_def split: if_splits prod.splits option.splits)

lemma classify_loop_results:
  "classify_loop m cls es acc = Inr rs \<Longrightarrow>
     \<exists>cs. rs = acc @ cs \<and> length cs = length es
       \<and> (\<forall>i<length es. classify_entry_with m cls (es ! i) = Inr (cs ! i))"
proof (induction es arbitrary: acc)
  case Nil
  then show ?case by simp
next
  case (Cons e es)
  then obtain c where c: "classify_entry_with m cls e = Inr c"
    and rest: "classify_loop m cls es (acc @ [c]) = Inr rs"
    by (auto split: sum.splits)
  from Cons.IH [OF rest] obtain cs where cs: "rs = (acc @ [c]) @ cs" "length cs = length es"
    "\<forall>i<length es. classify_entry_with m cls (es ! i) = Inr (cs ! i)"
    by blast
  have "\<forall>i<length (e # es). classify_entry_with m cls ((e # es) ! i) = Inr ((c # cs) ! i)"
    using c cs(3) by (auto simp: nth_Cons split: nat.splits)
  with cs(1,2) show ?case
    by (intro exI [of _ "c # cs"]) simp
qed

lemma classify_entries_results:
  "classify_entries es cls = Inr rs \<Longrightarrow>
     length rs = length es
       \<and> (\<forall>i<length es. classify_entry_with find_best_match cls (es ! i) = Inr (rs ! i))"
  using classify_loop_results [of find_best_match cls es "[]" rs]
  by (auto simp: classify_entries_def)

lemma tokens_Text: "tokens (Text s) = str_lower ` set (str_split s)"
  by (simp only: tokens_def split_normalize set_map)

lemma tokens_empty_iff: "tokens (Text s) = {} \<longleftrightarrow> (\<forall>c\<in>set s. isspace c)"
  by (simp add: tokens_Text split_Nil)

lemma case_insensitive_equal_lower:
  "case_insensitive_equal x y \<longleftrightarrow> str_lower x = str_lower y"
  unfolding case_insensitive_equal_def str_lower_def
  by (induction x arbitrary: y) (auto simp: list_all2_Cons1)

lemma classify_entry_unmatched:
  assumes "relevant_classifications cls (entry_accountType e) \<noteq> []"
    and "\<forall>r\<in>set (relevant_classifications cls (entry_accountType e)).
           row_similarity (entry_name e) r = 0"
  shows "classify_entry_with find_best_match cls e = Inl TypeError"
proof -
  have "find_best_match (entry_name e) (relevant_classifications cls (entry_accountType e))
      = (None, 0)"
    using assms(2) by (simp add: find_best_match_raw fold_step_keep)
  with assms(1) show ?thesis
    by (simp add: classify_entry_with_def Let_def)
qed

lemma relevant_empty_iff:
  "relevant_classifications cls a = []
     \<longleftrightarrow> (\<forall>r\<in>set cls. str_lower (row_accountType r) \<noteq> str_lower a)"
  by (simp add: relevant_classifications_def filter_empty_conv)

lemma no_shared_token_unmatched:
  assumes "relevant_classifications cls (entry_accountType e) \<noteq> []"
    and "\<forall>r\<in>set (relevant_classifications cls (entry_accountType e)).
           tokens (entry_name e) \<inter> tokens (row_primary r) = {}
         \<and> tokens (entry_name e) \<inter> tokens (row_secondary r) = {}
         \<and> tokens (entry_name e) \<inter> tokens (row_tertiary r) = {}"
  shows "classify_entry_with find_best_match cls e = Inl TypeError"
  using assms by (intro classify_entry_unmatched) (simp_all add: row_similarity_zero_iff)

section \<open>The texts of the examples\<close>

text \<open>
  The token sets of the entry names and labels, and the lowercased account types, that
  the examples below use; each is computed once.
\<close>

named_theorems example_values

lemma tokens_widget_inventory [example_values]:
  "tokens (Text ''Widget Inventory'') = {''widget'', ''inventory''}"
  by code_simp

lemma tokens_cash_in_bank [example_values]:
  "tokens (Text ''Cash in Bank'') = {''cash'', ''in'', ''bank''}"
  by code_simp

lemma tokens_office_equipment [example_values]:
  "tokens (Text ''Office Equipment'') = {''office'', ''equipment''}"
  by code_simp

lemma tokens_cash [example_values]:
  "tokens (Text ''Cash'') = {''cash''}"
  by code_simp

lemma tokens_bank_accounts [example_values]:
  "tokens (Text ''Bank Accounts'') = {''bank'', ''accounts''}"
  by code_simp

lemma tokens_petty_cash [example_values]:
  "tokens (Text ''Petty Cash'') = {''petty'', ''cash''}"
  by code_simp

lemma tokens_receivables [example_values]:
  "tokens (Text ''Receivables'') = {''receivables''}"
  by code_simp

lemma tokens_trade_receivables [example_values]:
  "tokens (Text ''Trade Receivables'') = {''trade'', ''receivables''}"
  by code_simp

lemma tokens_accounts_receivable [example_values]:
  "tokens (Text ''Accounts Receivable'') = {''accounts'', ''receivable''}"
  by code_simp

lemma tokens_loans [example_values]:
  "tokens (Text ''Loans'') = {''loans''}"
  by code_simp

lemma tokens_bank_loans [example_values]:
  "tokens (Text ''Bank Loans'') = {''bank'', ''loans''}"
  by code_simp

lemma tokens_bank_in_cash [example_values]:
  "tokens (Text ''bank IN cash'') = {''bank'', ''in'', ''cash''}"
  by code_simp

lemma lower_Asset [example_values]: "str_lower ''Asset'' = ''asset''"
  by code_simp

lemma lower_asset_lc [example_values]: "str_lower ''asset'' = ''asset''"
  by code_simp

lemma lower_ASSET [example_values]: "str_lower ''ASSET'' = ''asset''"
  by code_simp

lemma lower_Liability [example_values]: "str_lower ''Liability'' = ''liability''"
  by code_simp

lemma lower_Equity [example_values]: "str_lower ''Equity'' = ''equity''"
  by code_simp

lemmas run_defs =
  classify_entries_def classify_entry_with_def relevant_classifications_def
  find_best_match_raw match_step_eq row_similarity_def similarity_tokens match_of_def
  card_insert_if

section \<open>Claims on the normalizer\<close>

text \<open>
  Claim C9. \<^verbatim>\<open>normalize_text\<close> is a total function with no failing branch. On a cell
  that is not a text, and on the empty text, it returns the empty text. On a text it
  returns what the specification describes (lowercase, then collapse each run of
  whitespace to one space, then strip both ends; the script strips before it collapses,
  with the same result). The result is in lower case, each of its whitespace characters
  is a single space between two words, it neither starts nor ends with whitespace, and
  its words are the words of the input in lower case.
\<close>

theorem normalize_text_meets_spec:
  "normalize_text t = normalize_spec t
     \<and> normalize_text (Number n) = [] \<and> normalize_text Missing = []
     \<and> normalize_text (Text []) = []
     \<and> str_lower (normalize_text t) = normalize_text t
     \<and> single_spaced (normalize_text t)
     \<and> stripped (normalize_text t)
     \<and> str_split (normalize_text (Text s)) = map str_lower (str_split s)"
proof -
  have empty: "normalize_text (Text []) = []"
    by (simp add: str_lower_def str_strip_def)
  have spec: "normalize_text t = normalize_spec t"
    using empty by (cases t) (auto simp: normalize_spec_def re_sub_strip)
  have low: "str_lower (normalize_text t) = normalize_text t"
    by (cases t) (simp_all add: str_lower_re_sub str_lower_strip str_lower_idem, simp_all add: str_lower_def)
  have single: "single_spaced (normalize_text t)"
    by (cases t) (simp_all add: single_spaced_re_sub)
  have strip: "stripped (normalize_text t)"
    by (cases t) (simp_all add: re_sub_strip stripped_strip, simp_all add: stripped_def)
  show ?thesis
    using empty spec low single strip split_normalize [of s] by simp
qed

text \<open>
  The theorem at a text with a tab, a line feed, capitals and spaces at both ends.
\<close>

theorem normalize_text_meets_spec_witness:
  "normalize_text (Text [CHR '' '', CHR ''C'', CHR ''a'', CHR 0x09, CHR '' '', CHR ''I'', CHR ''N'', CHR 0x0A])
     = ''ca in''
   \<and> single_spaced ''ca in'' \<and> stripped ''ca in''"
proof -
  let ?t = "Text [CHR '' '', CHR ''C'', CHR ''a'', CHR 0x09, CHR '' '', CHR ''I'', CHR ''N'', CHR 0x0A]"
  have v: "normalize_text ?t = ''ca in''"
    by code_simp
  from normalize_text_meets_spec [of ?t 0 "[]"]
  have "single_spaced (normalize_text ?t) \<and> stripped (normalize_text ?t)"
    by (elim conjE) (intro conjI)
  then show ?thesis
    by (simp only: v simp_thms)
qed

text \<open>
  Claim C10. Normalizing a normalized text changes nothing. So the similarity of the
  normalized entry name to a label is the similarity of the raw entry name to it, and
  \<^verbatim>\<open>find_best_match\<close>, which normalizes the entry name once before the loop, computes
  what the loop computes on the raw entry name.
\<close>

theorem normalize_idempotent:
  "normalize_text (Text (normalize_text t)) = normalize_text t
     \<and> calculate_similarity (Text (normalize_text e)) l = calculate_similarity e l
     \<and> find_best_match e rows = fold (match_step e) rows (None, 0)"
  by (simp only: normalize_idem similarity_normalized find_best_match_raw simp_thms)

section \<open>Claims on the similarity\<close>

text \<open>
  Claim C7. The similarity is symmetric.
\<close>

theorem similarity_symmetric: "calculate_similarity a b = calculate_similarity b a"
  by (rule similarity_commute)

text \<open>
  Claim C4, as stated, fails: the text of one space is not empty, it has no token, and
  the guard \<^verbatim>\<open>if not set1 or not set2\<close> gives it the similarity 0 to itself.
\<close>

theorem similarity_blank_counterexample:
  "'' '' \<noteq> [] \<and> calculate_similarity (Text '' '') (Text '' '') = 0"
  by code_simp

text \<open>
  Claim C4, amended. A text with at least one character that is not whitespace has the
  similarity 1 to itself.
\<close>

theorem similarity_self_one:
  "\<exists>c\<in>set s. \<not> isspace c \<Longrightarrow> calculate_similarity (Text s) (Text s) = 1"
  by (rule similarity_self) (simp add: tokens_empty_iff)

theorem similarity_self_one_witness:
  "(\<exists>c\<in>set ''Cash in Bank''. \<not> isspace c)
     \<and> calculate_similarity (Text ''Cash in Bank'') (Text ''Cash in Bank'') = 1"
proof -
  have h: "\<exists>c\<in>set ''Cash in Bank''. \<not> isspace c"
    by code_simp
  from similarity_self_one [OF h] h show ?thesis by simp
qed

text \<open>
  Claim C8. The similarity lies between 0 and 1, and so does the confidence of every
  result that \<^verbatim>\<open>classify_entries\<close> returns.
\<close>

theorem similarity_and_confidence_bounded:
  "0 \<le> calculate_similarity a b \<and> calculate_similarity a b \<le> 1
     \<and> (classify_entries es cls = Inr rs \<longrightarrow>
          (\<forall>r\<in>set rs. 0 \<le> confidence r \<and> confidence r \<le> 1))"
proof (intro conjI impI ballI)
  show "0 \<le> calculate_similarity a b" by (rule similarity_nonneg)
  show "calculate_similarity a b \<le> 1" by (rule similarity_le_one)
next
  fix r
  assume ok: "classify_entries es cls = Inr rs" and r: "r \<in> set rs"
  from r obtain i where i: "i < length rs" "rs ! i = r"
    by (auto simp: in_set_conv_nth)
  with classify_entries_results [OF ok]
  have "classify_entry_with find_best_match cls (es ! i) = Inr r" by auto
  then have "0 \<le> confidence r \<and> confidence r \<le> 1"
    by (rule classify_entry_confidence)
  then show "0 \<le> confidence r" and "confidence r \<le> 1" by simp_all
qed

text \<open>
  The theorem on a run that returns one result, of confidence one third.
\<close>

theorem similarity_and_confidence_bounded_witness:
  "classify_entries
     [\<lparr>entry_name = Text ''Cash in Bank'', entry_accountType = ''asset''\<rparr>]
     [\<lparr>row_accountType = ''Asset'', row_primary = Text ''Cash'',
       row_secondary = Text ''Bank Accounts'', row_tertiary = Text ''Petty Cash''\<rparr>]
   = Inr [\<lparr>entryName = Text ''Cash in Bank'', accountType = ''asset'',
       primaryClassification = Text ''Cash'',
       secondaryClassification = Text ''Bank Accounts'',
       tertiaryClassification = Text ''Petty Cash'', confidence = 1 / 3,
       masterSheet = ''asset Master Sheet''\<rparr>]
   \<and> (0::rat) \<le> 1 / 3 \<and> (1::rat) / 3 \<le> 1"
proof -
  let ?es = "[\<lparr>entry_name = Text ''Cash in Bank'', entry_accountType = ''asset''\<rparr>]"
  let ?cls = "[\<lparr>row_accountType = ''Asset'', row_primary = Text ''Cash'',
       row_secondary = Text ''Bank Accounts'', row_tertiary = Text ''Petty Cash''\<rparr>]"
  let ?r = "\<lparr>entryName = Text ''Cash in Bank'', accountType = ''asset'',
       primaryClassification = Text ''Cash'',
       secondaryClassification = Text ''Bank Accounts'',
       tertiaryClassification = Text ''Petty Cash'', confidence = 1 / 3,
       masterSheet = ''asset Master Sheet''\<rparr>"
  have run: "classify_entries ?es ?cls = Inr [?r]"
    by (simp add: run_defs example_values)
  from similarity_and_confidence_bounded [of undefined undefined ?es ?cls "[?r]"] run
  have "0 \<le> confidence ?r \<and> confidence ?r \<le> 1" by simp
  with run show ?thesis by simp
qed

section \<open>Claims on the matcher\<close>




text \<open>
  Claim C1. On a candidate set that is not empty and whose rows all score 0, the
  specification has \<^verbatim>\<open>classify_entries\<close> report a candidate row with confidence 0. The
  script does take the branch of the matcher there, but \<^verbatim>\<open>best_match\<close> is still
  \<^verbatim>\<open>None\<close> after the loop and \<^verbatim>\<open>best_match['primaryClassification']\<close> raises
  \<^verbatim>\<open>TypeError\<close>: no result is produced.
\<close>

theorem zero_score_candidates_raise:
  "relevant_classifications
     [\<lparr>row_accountType = ''Asset'', row_primary = Text ''Cash'',
       row_secondary = Text ''Bank Accounts'', row_tertiary = Text ''Cash in Bank''\<rparr>]
     ''Asset''
   = [\<lparr>row_accountType = ''Asset'', row_primary = Text ''Cash'',
       row_secondary = Text ''Bank Accounts'', row_tertiary = Text ''Cash in Bank''\<rparr>]
   \<and> row_similarity (Text ''Widget Inventory'')
       \<lparr>row_accountType = ''Asset'', row_primary = Text ''Cash'',
       row_secondary = Text ''Bank Accounts'', row_tertiary = Text ''Cash in Bank''\<rparr> = 0
   \<and> find_best_match (Text ''Widget Inventory'')
       [\<lparr>row_accountType = ''Asset'', row_primary = Text ''Cash'',
       row_secondary = Text ''Bank Accounts'', row_tertiary = Text ''Cash in Bank''\<rparr>]
     = (None, 0)
   \<and> classify_entries
       [\<lparr>entry_name = Text ''Widget Inventory'', entry_accountType = ''Asset''\<rparr>]
       [\<lparr>row_accountType = ''Asset'', row_primary = Text ''Cash'',
       row_secondary = Text ''Bank Accounts'', row_tertiary = Text ''Cash in Bank''\<rparr>]
     = Inl TypeError"
  by (simp add: run_defs example_values)


section \<open>Claims on the filter by account type\<close>

text \<open>
  Claim C5. When no row of the table has the account type of the entry up to case, and
  so when the table is empty, the result has the three fields \<^verbatim>\<open>UNKNOWN\<close> and the
  confidence 0. It is the same result whatever function stands at the call of the
  matcher: the matcher is not consulted.
\<close>

theorem unknown_when_no_candidates:
  assumes "\<forall>r\<in>set cls. str_lower (row_accountType r) \<noteq> str_lower (entry_accountType e)"
  shows "(\<forall>m. classify_entry_with m cls e = Inr (unknown_result e))
       \<and> (\<forall>m. classify_entry_with m [] e = Inr (unknown_result e))
       \<and> classify_entries [e] cls = Inr [unknown_result e]
       \<and> primaryClassification (unknown_result e) = Text ''UNKNOWN''
       \<and> secondaryClassification (unknown_result e) = Text ''UNKNOWN''
       \<and> tertiaryClassification (unknown_result e) = Text ''UNKNOWN''
       \<and> confidence (unknown_result e) = 0"
proof -
  have none: "relevant_classifications cls (entry_accountType e) = []"
    using assms by (simp add: relevant_empty_iff)
  have a: "classify_entry_with m cls e = Inr (unknown_result e)" for m
    using none by (simp add: classify_entry_with_def unknown_result_def Let_def)
  have b: "classify_entry_with m [] e = Inr (unknown_result e)" for m
    by (simp add: classify_entry_with_def unknown_result_def relevant_classifications_def Let_def)
  have c: "classify_entries [e] cls = Inr [unknown_result e]"
    by (simp add: classify_entries_def a)
  show ?thesis
    using a b c by (simp add: unknown_result_def)
qed

text \<open>
  The theorem on an entry of type Equity and a table of one Asset row.
\<close>

theorem unknown_when_no_candidates_witness:
  "classify_entries
     [\<lparr>entry_name = Text ''Cash in Bank'', entry_accountType = ''Equity''\<rparr>]
     [\<lparr>row_accountType = ''Asset'', row_primary = Text ''Cash'',
       row_secondary = Text ''Bank Accounts'', row_tertiary = Text ''Cash in Bank''\<rparr>]
   = Inr [\<lparr>entryName = Text ''Cash in Bank'', accountType = ''Equity'',
       primaryClassification = Text ''UNKNOWN'',
       secondaryClassification = Text ''UNKNOWN'',
       tertiaryClassification = Text ''UNKNOWN'', confidence = 0,
       masterSheet = ''Equity Master Sheet''\<rparr>]"
proof -
  let ?e = "\<lparr>entry_name = Text ''Cash in Bank'', entry_accountType = ''Equity''\<rparr>"
  let ?cls = "[\<lparr>row_accountType = ''Asset'', row_primary = Text ''Cash'',
       row_secondary = Text ''Bank Accounts'', row_tertiary = Text ''Cash in Bank''\<rparr>]"
  have h: "\<forall>r\<in>set ?cls. str_lower (row_accountType r) \<noteq> str_lower (entry_accountType ?e)"
    by (simp add: example_values)
  from unknown_when_no_candidates [OF h] show ?thesis
    by (simp add: unknown_result_def)
qed

text \<open>
  Claim C6. The candidates are the rows of the table whose account type equals that of
  the entry under case-insensitive comparison, in the order of the table. The result for
  an entry depends on the matcher through its value on the entry name and these
  candidates only. A row of type Asset is a candidate for an entry of type asset.
\<close>

theorem candidates_case_insensitive:
  "relevant_classifications cls a
     = filter (\<lambda>r. case_insensitive_equal (row_accountType r) a) cls
   \<and> (m1 (entry_name e) (relevant_classifications cls (entry_accountType e))
        = m2 (entry_name e) (relevant_classifications cls (entry_accountType e))
      \<longrightarrow> classify_entry_with m1 cls e = classify_entry_with m2 cls e)
   \<and> relevant_classifications
       [\<lparr>row_accountType = ''Asset'', row_primary = p, row_secondary = s,
         row_tertiary = t\<rparr>] ''asset''
     = [\<lparr>row_accountType = ''Asset'', row_primary = p, row_secondary = s,
         row_tertiary = t\<rparr>]"
proof (intro conjI impI)
  show "relevant_classifications cls a
      = filter (\<lambda>r. case_insensitive_equal (row_accountType r) a) cls"
    by (simp add: relevant_classifications_def case_insensitive_equal_lower)
next
  assume "m1 (entry_name e) (relevant_classifications cls (entry_accountType e))
        = m2 (entry_name e) (relevant_classifications cls (entry_accountType e))"
  then show "classify_entry_with m1 cls e = classify_entry_with m2 cls e"
    by (simp add: classify_entry_with_def Let_def)
next
  show "relevant_classifications
       [\<lparr>row_accountType = ''Asset'', row_primary = p, row_secondary = s,
         row_tertiary = t\<rparr>] ''asset''
     = [\<lparr>row_accountType = ''Asset'', row_primary = p, row_secondary = s,
         row_tertiary = t\<rparr>]"
    by (simp add: relevant_classifications_def example_values)
qed

text \<open>
  The theorem on a table of two rows: the matcher sees the one row of type ASSET.
\<close>

theorem candidates_case_insensitive_witness:
  "classify_entry_with find_best_match
     [\<lparr>row_accountType = ''Liability'', row_primary = Text ''Loans'',
       row_secondary = Text ''Bank Loans'', row_tertiary = Text ''Inventory Loans''\<rparr>,
      \<lparr>row_accountType = ''ASSET'', row_primary = Text ''Cash'',
       row_secondary = Text ''Bank Accounts'', row_tertiary = Text ''Cash in Bank''\<rparr>]
     \<lparr>entry_name = Text ''Cash in Bank'', entry_accountType = ''asset''\<rparr>
   = Inr \<lparr>entryName = Text ''Cash in Bank'', accountType = ''asset'',
       primaryClassification = Text ''Cash'',
       secondaryClassification = Text ''Bank Accounts'',
       tertiaryClassification = Text ''Cash in Bank'', confidence = 1,
       masterSheet = ''asset Master Sheet''\<rparr>"
proof -
  let ?cls = "[\<lparr>row_accountType = ''Liability'', row_primary = Text ''Loans'',
       row_secondary = Text ''Bank Loans'', row_tertiary = Text ''Inventory Loans''\<rparr>,
      \<lparr>row_accountType = ''ASSET'', row_primary = Text ''Cash'',
       row_secondary = Text ''Bank Accounts'', row_tertiary = Text ''Cash in Bank''\<rparr>]"
  let ?e = "\<lparr>entry_name = Text ''Cash in Bank'', entry_accountType = ''asset''\<rparr>"
  let ?m = "\<lambda>(n::cell) (c::classification_row list).
       (Some \<lparr>bm_accountType = ''ASSET'', bm_primaryClassification = Text ''Cash'',
       bm_secondaryClassification = Text ''Bank Accounts'',
       bm_tertiaryClassification = Text ''Cash in Bank''\<rparr>, 1::rat)"
  have h: "find_best_match (entry_name ?e) (relevant_classifications ?cls (entry_accountType ?e))
      = ?m (entry_name ?e) (relevant_classifications ?cls (entry_accountType ?e))"
    by (simp add: run_defs example_values)
  have v: "classify_entry_with ?m ?cls ?e
      = Inr \<lparr>entryName = Text ''Cash in Bank'', accountType = ''asset'',
       primaryClassification = Text ''Cash'',
       secondaryClassification = Text ''Bank Accounts'',
       tertiaryClassification = Text ''Cash in Bank'', confidence = 1,
       masterSheet = ''asset Master Sheet''\<rparr>"
    by (simp add: run_defs example_values)
  from candidates_case_insensitive [of ?cls undefined find_best_match ?e ?m] h
  have "classify_entry_with find_best_match ?cls ?e = classify_entry_with ?m ?cls ?e"
    by blast
  then show ?thesis
    by (simp only: v)
qed

end
